theory Spec2Isabelle
  imports Main "HOL-Library.Sublist" "HOL-Library.Char_ord" "HOL-Library.List_Lexorder"
begin

section \<open>Strings\<close>

text \<open>
  A Python \<open>str\<close> is modelled as a \<open>string\<close> (a list of \<open>char\<close>), one \<open>char\<close> per
  code point, for the code points below 256. The order on strings is the
  lexicographic order on code points (\<open>Char_ord\<close>, \<open>List_Lexorder\<close>), as Python's
  \<open><\<close> on \<open>str\<close> is. A Python \<open>bytes\<close> value is a \<open>string\<close> too.
\<close>

type_synonym bytes = string

text \<open>\<open>str.lower()\<close> on the code points below 256: the letters A-Z and the
  Latin-1 capitals 0xC0-0xDE (without the multiplication sign 0xD7) move up by 32.\<close>

definition lower_char :: "char \<Rightarrow> char" where
  "lower_char c =
     (let n = (of_char c :: nat)
      in if (65 \<le> n \<and> n \<le> 90) \<or> (192 \<le> n \<and> n \<le> 222 \<and> n \<noteq> 215)
         then char_of (n + 32) else c)"

definition lower :: "string \<Rightarrow> string" where
  "lower s = map lower_char s"

text \<open>\<open>sub in s\<close> on strings: \<open>sub\<close> occurs in \<open>s\<close> as a contiguous substring.\<close>

fun contains :: "string \<Rightarrow> string \<Rightarrow> bool" where
  "contains [] sub = (sub = [])"
| "contains (c # s) sub = (prefix sub (c # s) \<or> contains s sub)"

text \<open>\<open>str.isspace()\<close> on one code point below 256, and \<open>str.strip()\<close>.\<close>

definition isspace :: "char \<Rightarrow> bool" where
  "isspace c =
     (let n = (of_char c :: nat)
      in (9 \<le> n \<and> n \<le> 13) \<or> (28 \<le> n \<and> n \<le> 32) \<or> n = 133 \<or> n = 160)"

definition strip :: "string \<Rightarrow> string" where
  "strip s = rev (dropWhile isspace (rev (dropWhile isspace s)))"

text \<open>\<open>sep.join(xs)\<close>.\<close>

fun join :: "string \<Rightarrow> string list \<Rightarrow> string" where
  "join sep [] = []"
| "join sep [x] = x"
| "join sep (x # y # ys) = x @ sep @ join sep (y # ys)"

text \<open>\<open>s.split(c, 1)\<close> for a one-character separator: at most one split, at the
  first occurrence of the separator.\<close>

definition split1 :: "char \<Rightarrow> string \<Rightarrow> string list" where
  "split1 c s =
     (if c \<in> set s
      then [takeWhile (\<lambda>x. x \<noteq> c) s, tl (dropWhile (\<lambda>x. x \<noteq> c) s)]
      else [s])"

section \<open>Address helpers\<close>

text \<open>
  \<^verbatim>\<open>
  def _sender_domain(email: str) -> str:
      return email.split("@", 1)[-1].lower() if "@" in email else ""
  \<close>
  The index \<open>[-1]\<close> reads the last element of a list that is never empty.
\<close>

definition sender_domain :: "string \<Rightarrow> string" where
  "sender_domain email =
     (if contains email ''@'' then lower (last (split1 (CHR ''@'') email)) else [])"

text \<open>The words of the specification: the part of a string after the first
  occurrence of a character.\<close>

fun after_first :: "char \<Rightarrow> string \<Rightarrow> string" where
  "after_first c [] = []"
| "after_first c (x # xs) = (if x = c then xs else after_first c xs)"

section \<open>Exceptions, messages, the standard library\<close>

text \<open>The exceptions the pipeline can meet; all of them are subclasses of
  \<open>Exception\<close>, so every \<open>except Exception\<close> catches them.\<close>

datatype exn = AttributeError | KeyError | LookupError | TypeError | UnicodeError | ValueError

text \<open>
  A header value as \<open>msg.get\<close> and \<open>msg.get_all\<close> return it: a \<open>str\<close>, or, for a header
  line with raw non-ASCII bytes, an \<open>email.header.Header\<close> object (the messages of
  \<open>mailbox.mbox\<close> have the \<open>compat32\<close> policy). \<open>Header b\<close> holds the bytes of the line.
  A \<open>Header\<close> has no method \<open>lower\<close>, and it is true in a condition.
\<close>

datatype hval = Str string | Header bytes

text \<open>
  A message (or a MIME part) as the code reads it:
  \<^item> \<open>headers\<close>: the header lines in file order, name and value;
  \<^item> \<open>get_content_type\<close>: what \<open>part.get_content_type()\<close> returns;
  \<^item> \<open>get_content\<close>: what \<open>part.get_content()\<close> returns (a \<open>str\<close>) or raises;
  \<^item> \<open>get_payload_decode\<close>: what \<open>part.get_payload(decode=True)\<close> returns
    (\<open>bytes\<close>, or \<open>None\<close> when there is no payload to decode) or raises;
  \<^item> \<open>is_multipart\<close> and the sub-parts that \<open>walk()\<close> descends into.
\<close>

datatype msg = Msg
  (headers: "(string \<times> hval) list")
  (get_content_type: string)
  (get_content: "exn + string")
  (get_payload_decode: "exn + bytes option")
  (is_multipart: bool)
  (subparts: "msg list")

text \<open>\<open>msg.get_all(name, [])\<close> and \<open>msg.get(name)\<close>: header names are matched
  without regard to case; \<open>get\<close> returns the first match.\<close>

definition msg_get_all :: "msg \<Rightarrow> string \<Rightarrow> hval list" where
  "msg_get_all m name = map snd (filter (\<lambda>kv. lower (fst kv) = lower name) (headers m))"

definition msg_get :: "msg \<Rightarrow> string \<Rightarrow> hval option" where
  "msg_get m name = (case msg_get_all m name of [] \<Rightarrow> None | v # _ \<Rightarrow> Some v)"

text \<open>\<open>msg.get(name, "")\<close>.\<close>

definition msg_get_default :: "msg \<Rightarrow> string \<Rightarrow> hval \<Rightarrow> hval" where
  "msg_get_default m name d = (case msg_get m name of None \<Rightarrow> d | Some v \<Rightarrow> v)"

text \<open>\<open>msg.walk()\<close>: the message itself, then its sub-parts, depth first.\<close>

fun walk :: "msg \<Rightarrow> msg list" where
  "walk (Msg h ct gc gp mp ps) =
     Msg h ct gc gp mp ps # (if mp then concat (map walk ps) else [])"

text \<open>
  A \<open>datetime\<close> as \<open>parsedate_to_datetime\<close> constructs it: six fields, no
  microseconds, and either no \<open>tzinfo\<close> (a naive datetime, \<open>None\<close>) or a fixed offset
  from UTC in whole minutes (an aware datetime).
\<close>

record datetime =
  dt_year :: nat
  dt_month :: nat
  dt_day :: nat
  dt_hour :: nat
  dt_minute :: nat
  dt_second :: nat
  dt_utcoffset :: "int option"

text \<open>
  \<open>datetime.isoformat()\<close> on such a datetime: \<open>YYYY-MM-DDTHH:MM:SS\<close>, followed by
  \<open>+HH:MM\<close> or \<open>-HH:MM\<close> when the datetime is aware. The fields of a datetime lie in
  their ranges (the year below 10000, the others below 100, the offset below a
  day), where the digits below are those of the formats \<open>%04d\<close> and \<open>%02d\<close>.
\<close>

definition digit :: "nat \<Rightarrow> char" where
  "digit n = ''0123456789'' ! (n mod 10)"

definition pad2 :: "nat \<Rightarrow> string" where
  "pad2 n = [digit (n div 10), digit n]"

definition pad4 :: "nat \<Rightarrow> string" where
  "pad4 n = [digit (n div 1000), digit (n div 100), digit (n div 10), digit n]"

definition isoformat_offset :: "int \<Rightarrow> string" where
  "isoformat_offset off =
     (if 0 \<le> off then ''+'' else ''-'') @
     pad2 (nat (abs off) div 60) @ '':'' @ pad2 (nat (abs off) mod 60)"

definition isoformat :: "datetime \<Rightarrow> string" where
  "isoformat dt =
     pad4 (dt_year dt) @ ''-'' @ pad2 (dt_month dt) @ ''-'' @ pad2 (dt_day dt) @ ''T'' @
     pad2 (dt_hour dt) @ '':'' @ pad2 (dt_minute dt) @ '':'' @ pad2 (dt_second dt) @
     (case dt_utcoffset dt of None \<Rightarrow> [] | Some off \<Rightarrow> isoformat_offset off)"

text \<open>
  The other functions of Python's standard library that the pipeline calls are
  parameters:
  \<^item> \<open>parseaddr\<close>: \<open>email.utils.parseaddr\<close>, a header value to (name, address);
  \<^item> \<open>header_to_str\<close>: \<open>str(make_header(decode_header(value)))\<close>;
  \<^item> \<open>parsedate_to_datetime\<close>: \<open>email.utils.parsedate_to_datetime\<close>;
  \<^item> \<open>getaddresses\<close>: \<open>email.utils.getaddresses\<close>;
  \<^item> \<open>html_feed\<close>: \<open>feed\<close> then \<open>get_text\<close> of \<open>_HTMLStripper\<close>, the data between the
    tags as \<open>HTMLParser\<close> reports it;
  \<^item> \<open>bytes_decode\<close>: \<open>bytes.decode(errors="replace")\<close>;
  \<^item> \<open>header_str\<close>: \<open>str(h)\<close> of a \<open>Header\<close> object with the given bytes.
  Each of the first five may raise.
\<close>

record stdlib =
  parseaddr :: "hval \<Rightarrow> exn + (string \<times> string)"
  header_to_str :: "hval \<Rightarrow> exn + string"
  parsedate_to_datetime :: "hval \<Rightarrow> exn + datetime"
  getaddresses :: "hval list \<Rightarrow> exn + (string \<times> string) list"
  html_feed :: "string \<Rightarrow> exn + string"
  bytes_decode :: "bytes \<Rightarrow> string"
  header_str :: "bytes \<Rightarrow> string"

text \<open>\<open>str(v)\<close> of a header value.\<close>

definition str_of :: "stdlib \<Rightarrow> hval \<Rightarrow> string" where
  "str_of lib v = (case v of Str s \<Rightarrow> s | Header b \<Rightarrow> header_str lib b)"

section \<open>Configuration\<close>

text \<open>The module's global configuration, passed explicitly. The keyword set is
  given as the list of its elements in the order the loop of
  \<open>subject_matches_ignores\<close> meets them. \<open>cutoff_utc\<close> is an instant in seconds since
  the epoch.\<close>

record config =
  ignore_domains :: "string set"
  ignore_senders :: "string set"
  subject_phrase_ignore :: string
  subject_keywords_ignore :: "string list"
  cutoff_utc :: int

definition IGNORE_DOMAINS :: "string set" where
  "IGNORE_DOMAINS = {''integrityokc.com'', ''rosenbaumrealtygroup.com'', ''coloradorpm.com''}"

definition IGNORE_SENDERS :: "string set" where
  "IGNORE_SENDERS = {''support@integrityokc.com'', ''demo@kindredpm.ai'', ''kindredsnyder@gmail.com''}"

definition SUBJECT_PHRASE_IGNORE :: string where
  "SUBJECT_PHRASE_IGNORE = ''kindred just flagged''"

definition SUBJECT_KEYWORDS_IGNORE :: "string list" where
  "SUBJECT_KEYWORDS_IGNORE = [''maintenance'', ''wo_id'']"

text \<open>\<open>datetime(2025, 9, 19, 0, 0, 0)\<close> in Asia/Seoul (UTC+9), as an instant.\<close>

definition CUTOFF_UTC :: int where
  "CUTOFF_UTC = 1758207600"

definition shipped :: config where
  "shipped = \<lparr> ignore_domains = IGNORE_DOMAINS, ignore_senders = IGNORE_SENDERS,
               subject_phrase_ignore = SUBJECT_PHRASE_IGNORE,
               subject_keywords_ignore = SUBJECT_KEYWORDS_IGNORE,
               cutoff_utc = CUTOFF_UTC \<rparr>"

section \<open>Decoding one message\<close>

text \<open>
  \<^verbatim>\<open>
  def _html_to_text(html):
      stripper = _HTMLStripper()
      try:
          stripper.feed(html); return stripper.get_text()
      except Exception:
          return re.sub(r"<[^>]+>", "", html)
  \<close>
  The pattern matches a \<open><\<close>, one or more characters other than \<open>>\<close>, and a \<open>>\<close>;
  matches are removed from left to right.
\<close>

function re_sub_tags :: "string \<Rightarrow> string" where
  "re_sub_tags [] = []"
| "re_sub_tags (c # s) =
     (if c = CHR ''<'' \<and> takeWhile (\<lambda>x. x \<noteq> CHR ''>'') s \<noteq> [] \<and> CHR ''>'' \<in> set s
      then re_sub_tags (tl (dropWhile (\<lambda>x. x \<noteq> CHR ''>'') s))
      else c # re_sub_tags s)"
  by pat_completeness auto
termination
proof (relation "measure length")
  show "wf (measure length)" by simp
next
  fix c :: char and s :: string
  have "length (tl (dropWhile (\<lambda>x. x \<noteq> CHR ''>'') s)) \<le> length s"
    using length_dropWhile_le [of "\<lambda>x. x \<noteq> CHR ''>''" s] by simp
  then show "(tl (dropWhile (\<lambda>x. x \<noteq> CHR ''>'') s), c # s) \<in> measure length"
    by simp
next
  fix c :: char and s :: string
  show "(s, c # s) \<in> measure length" by simp
qed

definition html_to_text :: "stdlib \<Rightarrow> string \<Rightarrow> string" where
  "html_to_text lib html =
     (case html_feed lib html of Inr t \<Rightarrow> t | Inl e \<Rightarrow> re_sub_tags html)"

text \<open>
  \<^verbatim>\<open>
  def _decode_header(value):
      if not value: return ""
      try: return str(make_header(decode_header(value)))
      except Exception: return value
  \<close>
\<close>

definition decode_header :: "stdlib \<Rightarrow> hval \<Rightarrow> hval" where
  "decode_header lib v =
     (if v = Str [] then Str []
      else case header_to_str lib v of Inr s \<Rightarrow> Str s | Inl e \<Rightarrow> v)"

text \<open>
  \<^verbatim>\<open>
  def _extract_addresses(msg, header_name):
      raw = msg.get_all(header_name, [])
      addrs = [a for _, a in getaddresses(raw)]
      return ", ".join(sorted(set(a for a in addrs if a)))
  \<close>
\<close>

definition extract_addresses :: "stdlib \<Rightarrow> msg \<Rightarrow> string \<Rightarrow> exn + string" where
  "extract_addresses lib m header_name =
     (let raw = msg_get_all m header_name
      in case getaddresses lib raw of
           Inl e \<Rightarrow> Inl e
         | Inr pairs \<Rightarrow>
             Inr (join '', '' (sort (remdups (filter (\<lambda>a. a \<noteq> []) (map snd pairs))))))"

text \<open>
  \<^verbatim>\<open>
  def _extract_name_and_email(addr_header):
      name, email = parseaddr(addr_header or "")
      return name or "", (email or "").lower()
  \<close>
\<close>

definition extract_name_and_email :: "stdlib \<Rightarrow> hval \<Rightarrow> exn + (string \<times> string)" where
  "extract_name_and_email lib addr_header =
     (case parseaddr lib addr_header of
        Inl e \<Rightarrow> Inl e
      | Inr (name, email) \<Rightarrow> Inr (name, lower email))"

text \<open>
  \<^verbatim>\<open>
  def _message_datetime(msg):
      date_hdr = msg.get("Date")
      if not date_hdr: return ""
      try:
          dt = parsedate_to_datetime(date_hdr)
          return dt.isoformat()
      except Exception:
          return ""
  \<close>
  The result type has a place for an exception that leaves the function.
\<close>

definition message_datetime :: "stdlib \<Rightarrow> msg \<Rightarrow> exn + string" where
  "message_datetime lib m =
     (case msg_get m ''Date'' of
        None \<Rightarrow> Inr []
      | Some date_hdr \<Rightarrow>
          if date_hdr = Str [] then Inr []
          else (case parsedate_to_datetime lib date_hdr of
                  Inr dt \<Rightarrow> Inr (isoformat dt)
                | Inl e \<Rightarrow> Inr []))"

section \<open>Body extraction\<close>

text \<open>\<open>part.get_payload(decode=True).decode(errors="replace")\<close>: the method
  \<open>decode\<close> of \<open>None\<close> does not exist, which is an \<open>AttributeError\<close>.\<close>

definition payload_text :: "stdlib \<Rightarrow> msg \<Rightarrow> exn + string" where
  "payload_text lib part =
     (case get_payload_decode part of
        Inl e \<Rightarrow> Inl e
      | Inr None \<Rightarrow> Inl AttributeError
      | Inr (Some b) \<Rightarrow> Inr (bytes_decode lib b))"

text \<open>\<open>"attachment" in str(part.get("Content-Disposition") or "").lower()\<close>.\<close>

definition is_attachment :: "stdlib \<Rightarrow> msg \<Rightarrow> bool" where
  "is_attachment lib part =
     (let cdisp = lower (case msg_get part ''Content-Disposition'' of
                           None \<Rightarrow> [] | Some v \<Rightarrow> str_of lib v)
      in contains cdisp ''attachment'')"

text \<open>
  The loop of \<open>_get_body_text\<close> over \<open>msg.walk()\<close>, with the chunks collected so far:
  \<^verbatim>\<open>
  for part in msg.walk():
      cdisp = str(part.get("Content-Disposition") or "").lower()
      ctype = str(part.get_content_type() or "").lower()
      if "attachment" in cdisp:
          continue
      if ctype == "text/plain":
          try:
              text_chunks.append(part.get_content().strip())
          except Exception:
              try:
                  text_chunks.append(part.get_payload(decode=True).decode(errors="replace").strip())
              except Exception:
                  pass
      elif ctype == "text/html":
          try:
              html = part.get_content()
          except Exception:
              html = part.get_payload(decode=True).decode(errors="replace")
          text_chunks.append(_html_to_text(html).strip())
  \<close>
  In the \<open>text/html\<close> branch the handler itself is outside any \<open>try\<close>.
\<close>

fun body_loop :: "stdlib \<Rightarrow> msg list \<Rightarrow> string list \<Rightarrow> exn + string list" where
  "body_loop lib [] text_chunks = Inr text_chunks"
| "body_loop lib (part # rest) text_chunks =
     (let ctype = lower (get_content_type part)
      in if is_attachment lib part then body_loop lib rest text_chunks
         else if ctype = ''text/plain'' then
           (case get_content part of
              Inr t \<Rightarrow> body_loop lib rest (text_chunks @ [strip t])
            | Inl e \<Rightarrow>
                (case payload_text lib part of
                   Inr t \<Rightarrow> body_loop lib rest (text_chunks @ [strip t])
                 | Inl e' \<Rightarrow> body_loop lib rest text_chunks))
         else if ctype = ''text/html'' then
           (case get_content part of
              Inr html \<Rightarrow> body_loop lib rest (text_chunks @ [strip (html_to_text lib html)])
            | Inl e \<Rightarrow>
                (case payload_text lib part of
                   Inr html \<Rightarrow>
                     body_loop lib rest (text_chunks @ [strip (html_to_text lib html)])
                 | Inl e' \<Rightarrow> Inl e'))
         else body_loop lib rest text_chunks)"

text \<open>
  The branch for a message that is not multipart:
  \<^verbatim>\<open>
  try:
      text_chunks.append(msg.get_content().strip())
  except Exception:
      try:
          text_chunks.append(msg.get_payload(decode=True).decode(errors="replace").strip())
      except Exception:
          pass
  \<close>
\<close>

definition body_single :: "stdlib \<Rightarrow> msg \<Rightarrow> string list" where
  "body_single lib m =
     (case get_content m of
        Inr t \<Rightarrow> [strip t]
      | Inl e \<Rightarrow> (case payload_text lib m of Inr t \<Rightarrow> [strip t] | Inl e' \<Rightarrow> []))"

text \<open>
  \<^verbatim>\<open>
  def _get_body_text(msg):
      text_chunks = []
      if msg.is_multipart(): <the loop>
      else: <the single branch>
      return "\n\n".join(p for p in text_chunks if p)
  \<close>
\<close>

definition get_body_text :: "stdlib \<Rightarrow> msg \<Rightarrow> exn + string" where
  "get_body_text lib m =
     (case (if is_multipart m then body_loop lib (walk m) [] else Inr (body_single lib m)) of
        Inl e \<Rightarrow> Inl e
      | Inr text_chunks \<Rightarrow>
          Inr (join [CHR 0x0A, CHR 0x0A] (filter (\<lambda>p. p \<noteq> []) text_chunks)))"


section \<open>Exclusion rules\<close>

text \<open>
  \<^verbatim>\<open>
  def subject_matches_ignores(subject):
      s = subject.lower()
      if SUBJECT_PHRASE_IGNORE in s: return True
      for w in SUBJECT_KEYWORDS_IGNORE:
          if w in s: return True
      return False
  \<close>
  The subject is what \<open>_decode_header\<close> returned, which is the header value itself
  when decoding raised.
\<close>

fun keyword_loop :: "string list \<Rightarrow> string \<Rightarrow> bool" where
  "keyword_loop [] s = False"
| "keyword_loop (w # ws) s = (if contains s w then True else keyword_loop ws s)"

definition subject_matches_ignores :: "config \<Rightarrow> hval \<Rightarrow> exn + bool" where
  "subject_matches_ignores cfg subject =
     (case subject of
        Header b \<Rightarrow> Inl AttributeError
      | Str t \<Rightarrow>
          (let s = lower t
           in if contains s (subject_phrase_ignore cfg) then Inr True
              else Inr (keyword_loop (subject_keywords_ignore cfg) s)))"

text \<open>
  \<^verbatim>\<open>
  def is_in_spam_or_trash(msg):
      for header in ("X-GM-LABELS", "X-Gmail-Labels", "X-Folder", "Folder"):
          vals = msg.get_all(header, [])
          for v in vals:
              if "spam" in v.lower() or "trash" in v.lower(): return True
      return False
  \<close>
  \<open>v.lower()\<close> is called on the value as \<open>get_all\<close> returns it, so a \<open>Header\<close> that the
  loops reach raises \<open>AttributeError\<close>.
\<close>

definition label_headers :: "string list" where
  "label_headers = [''X-GM-LABELS'', ''X-Gmail-Labels'', ''X-Folder'', ''Folder'']"

fun vals_loop :: "hval list \<Rightarrow> exn + bool" where
  "vals_loop [] = Inr False"
| "vals_loop (v # vs) =
     (case v of
        Header b \<Rightarrow> Inl AttributeError
      | Str t \<Rightarrow>
          if contains (lower t) ''spam'' \<or> contains (lower t) ''trash'' then Inr True
          else vals_loop vs)"

fun headers_loop :: "msg \<Rightarrow> string list \<Rightarrow> exn + bool" where
  "headers_loop m [] = Inr False"
| "headers_loop m (header # hs) =
     (case vals_loop (msg_get_all m header) of
        Inl e \<Rightarrow> Inl e
      | Inr found \<Rightarrow> if found then Inr True else headers_loop m hs)"

definition is_in_spam_or_trash :: "msg \<Rightarrow> exn + bool" where
  "is_in_spam_or_trash m = headers_loop m label_headers"

section \<open>Ingestion\<close>

text \<open>The row dictionary of \<open>parse_mbox_file\<close>; the field \<open>r_k\<close> is the key \<open>k\<close>.\<close>

record row =
  r_email :: string
  r_subject :: hval
  r_date :: string
  r_full_email_chain :: string
  r_from_name :: string
  r_sender_domain :: string
  r_to :: string
  r_cc :: string

text \<open>
  The end of the loop body of \<open>parse_mbox_file\<close>, after the ignore rules:
  \<^verbatim>\<open>
  body_text = _get_body_text(msg)
  row = {"email": from_email, "subject": subj, "date": date_iso,
         "full_email_chain": body_text, "from_name": from_name, "sender_domain": dom,
         "to": _extract_addresses(msg, "To"), "cc": _extract_addresses(msg, "Cc")}
  rows.append(row)
  \<close>
\<close>

definition build_row ::
  "stdlib \<Rightarrow> msg \<Rightarrow> string \<Rightarrow> string \<Rightarrow> hval \<Rightarrow> string \<Rightarrow> string \<Rightarrow> exn + row" where
  "build_row lib m from_name from_email subj date_iso sender_dom =
     (case get_body_text lib m of
        Inl e \<Rightarrow> Inl e
      | Inr body_text \<Rightarrow>
          (case extract_addresses lib m ''To'' of
             Inl e \<Rightarrow> Inl e
           | Inr to_addrs \<Rightarrow>
               (case extract_addresses lib m ''Cc'' of
                  Inl e \<Rightarrow> Inl e
                | Inr cc_addrs \<Rightarrow>
                    Inr \<lparr> r_email = from_email, r_subject = subj, r_date = date_iso,
                          r_full_email_chain = body_text, r_from_name = from_name,
                          r_sender_domain = sender_dom, r_to = to_addrs, r_cc = cc_addrs \<rparr>)))"

text \<open>
  The ignore rules of the loop body, for the decoded sender and subject: \<open>Inr True\<close>
  is a \<open>continue\<close>.
  \<^verbatim>\<open>
  if is_in_spam_or_trash(msg): continue
  dom = _sender_domain(from_email)
  if dom in IGNORE_DOMAINS: continue
  if from_email in IGNORE_SENDERS: continue
  if subject_matches_ignores(subj): continue
  \<close>
\<close>

definition ignore_rules :: "config \<Rightarrow> msg \<Rightarrow> string \<Rightarrow> hval \<Rightarrow> exn + bool" where
  "ignore_rules cfg m from_email subj =
     (case is_in_spam_or_trash m of
        Inl e \<Rightarrow> Inl e
      | Inr spam \<Rightarrow>
          if spam then Inr True
          else let dom = sender_domain from_email
               in if dom \<in> ignore_domains cfg then Inr True
                  else if from_email \<in> ignore_senders cfg then Inr True
                  else subject_matches_ignores cfg subj)"

text \<open>
  The body of the loop of \<open>parse_mbox_file\<close> for one message: \<open>Inr None\<close> is a
  \<open>continue\<close> of one of the ignore rules, \<open>Inr (Some row)\<close> is the row appended, and
  \<open>Inl e\<close> is an exception, which nothing in \<open>parse_mbox_file\<close> or \<open>main\<close> catches.
  \<^verbatim>\<open>
  from_name, from_email = _extract_name_and_email(msg.get("From", ""))
  subj = _decode_header(msg.get("Subject", ""))
  date_iso = _message_datetime(msg)
  <the ignore rules>
  <the end of the loop body>
  \<close>
\<close>

definition parse_step :: "config \<Rightarrow> stdlib \<Rightarrow> msg \<Rightarrow> exn + row option" where
  "parse_step cfg lib m =
     (case extract_name_and_email lib (msg_get_default m ''From'' (Str [])) of
        Inl e \<Rightarrow> Inl e
      | Inr (from_name, from_email) \<Rightarrow>
          let subj = decode_header lib (msg_get_default m ''Subject'' (Str []))
          in case message_datetime lib m of
               Inl e \<Rightarrow> Inl e
             | Inr date_iso \<Rightarrow>
                 (case ignore_rules cfg m from_email subj of
                    Inl e \<Rightarrow> Inl e
                  | Inr ignored \<Rightarrow>
                      if ignored then Inr None
                      else (case build_row lib m from_name from_email subj date_iso
                                   (sender_domain from_email) of
                              Inl e \<Rightarrow> Inl e
                            | Inr row \<Rightarrow> Inr (Some row))))"

text \<open>\<open>parse_mbox_file\<close> on the messages of the archive, in file order.\<close>

fun parse_loop :: "config \<Rightarrow> stdlib \<Rightarrow> msg list \<Rightarrow> row list \<Rightarrow> exn + row list" where
  "parse_loop cfg lib [] rows = Inr rows"
| "parse_loop cfg lib (m # mbox) rows =
     (case parse_step cfg lib m of
        Inl e \<Rightarrow> Inl e
      | Inr None \<Rightarrow> parse_loop cfg lib mbox rows
      | Inr (Some row) \<Rightarrow> parse_loop cfg lib mbox (rows @ [row]))"

definition parse_mbox_file :: "config \<Rightarrow> stdlib \<Rightarrow> msg list \<Rightarrow> exn + row list" where
  "parse_mbox_file cfg lib mbox = parse_loop cfg lib mbox []"

section \<open>Conversation reduction\<close>

text \<open>
  Step 3 of \<open>main\<close>: \<open>filtered_emails.sort(key=lambda x: x.get('date', ''), reverse=True)\<close>.
  Python's sort is stable, and with \<open>reverse=True\<close> it reverses the list, sorts it
  in ascending order and reverses the result, so rows with equal keys keep their order.
\<close>

definition sort_by_date :: "row list \<Rightarrow> row list" where
  "sort_by_date filtered_emails = rev (sort_key r_date (rev filtered_emails))"

text \<open>
  Step 4 of \<open>main\<close>:
  \<^verbatim>\<open>
  latest_emails_from_conversations = []
  processed_domains = set()
  for email in filtered_emails:
      domain = email.get('sender_domain')
      if domain and domain not in processed_domains:
          latest_emails_from_conversations.append(email)
          processed_domains.add(domain)
  \<close>
\<close>

fun latest_loop :: "row list \<Rightarrow> row list \<Rightarrow> string set \<Rightarrow> row list" where
  "latest_loop [] latest processed_domains = latest"
| "latest_loop (email # rest) latest processed_domains =
     (let domain = r_sender_domain email
      in if domain \<noteq> [] \<and> domain \<notin> processed_domains
         then latest_loop rest (latest @ [email]) (insert domain processed_domains)
         else latest_loop rest latest processed_domains)"

definition latest_emails_from_conversations :: "row list \<Rightarrow> row list" where
  "latest_emails_from_conversations filtered_emails =
     latest_loop (sort_by_date filtered_emails) [] {}"

text \<open>Steps 2 to 4 of \<open>main\<close>: the rows handed to the analysis, or the early
  return when no row is left after filtering.\<close>

definition main_steps :: "config \<Rightarrow> stdlib \<Rightarrow> msg list \<Rightarrow> exn + row list option" where
  "main_steps cfg lib mbox =
     (case parse_mbox_file cfg lib mbox of
        Inl e \<Rightarrow> Inl e
      | Inr filtered_emails \<Rightarrow>
          if filtered_emails = [] then Inr None
          else Inr (Some (latest_emails_from_conversations filtered_emails)))"

section \<open>The words of the specification\<close>

text \<open>
  The exclusion predicate as the specification words it, on the raw message, the
  lower-cased sender address and the decoded subject: a label header with a value
  that contains "spam" or "trash" without regard to case, the sender's domain in
  the domain blocklist, the sender in the sender blocklist, or the lower-cased
  subject with the ignore phrase or one of the ignore keywords in it. Containment
  is \<open>sublist\<close>, the contiguous sublists of the library; the text of a header value
  is the characters of its line.
\<close>

definition hval_text :: "hval \<Rightarrow> string" where
  "hval_text v = (case v of Str s \<Rightarrow> s | Header b \<Rightarrow> b)"

definition rule_label :: "msg \<Rightarrow> bool" where
  "rule_label m =
     (\<exists>h \<in> set label_headers. \<exists>v \<in> set (msg_get_all m h).
        sublist ''spam'' (lower (hval_text v)) \<or> sublist ''trash'' (lower (hval_text v)))"

definition rule_domain :: "config \<Rightarrow> string \<Rightarrow> bool" where
  "rule_domain cfg sender_email = (sender_domain sender_email \<in> ignore_domains cfg)"

definition rule_sender :: "config \<Rightarrow> string \<Rightarrow> bool" where
  "rule_sender cfg sender_email = (sender_email \<in> ignore_senders cfg)"

definition rule_subject :: "config \<Rightarrow> string \<Rightarrow> bool" where
  "rule_subject cfg subj =
     (sublist (subject_phrase_ignore cfg) (lower subj) \<or>
      (\<exists>w \<in> set (subject_keywords_ignore cfg). sublist w (lower subj)))"

definition should_exclude :: "config \<Rightarrow> msg \<Rightarrow> string \<Rightarrow> string \<Rightarrow> bool" where
  "should_exclude cfg m sender_email subj =
     (rule_label m \<or> rule_domain cfg sender_email \<or> rule_sender cfg sender_email \<or>
      rule_subject cfg subj)"






section \<open>Example inputs\<close>

text \<open>
  A standard library for the examples. It agrees with Python's (3.11) on the inputs
  the examples use: a bare address parses to itself with an empty display name and
  a \<open>Header\<close> object to the empty pair, a header without encoded words decodes to
  itself, ASCII bytes decode to the same characters, text without markup is its
  own data, a date with the zone \<open>+0000\<close> parses to an aware datetime and the same
  date with the zone \<open>-0000\<close> to a naive one.
\<close>

definition example_lib :: stdlib where
  "example_lib =
     \<lparr> parseaddr = (\<lambda>h. case h of Str s \<Rightarrow> Inr ([], s) | Header b \<Rightarrow> Inr ([], [])),
       header_to_str = (\<lambda>v. case v of Str s \<Rightarrow> Inr s | Header b \<Rightarrow> Inr b),
       parsedate_to_datetime =
         (\<lambda>h. if h = Str ''Thu, 02 Oct 2025 10:00:00 +0000''
               then Inr \<lparr> dt_year = 2025, dt_month = 10, dt_day = 2, dt_hour = 10,
                          dt_minute = 0, dt_second = 0, dt_utcoffset = Some 0 \<rparr>
               else if h = Str ''Thu, 02 Oct 2025 10:00:00 -0000''
               then Inr \<lparr> dt_year = 2025, dt_month = 10, dt_day = 2, dt_hour = 10,
                          dt_minute = 0, dt_second = 0, dt_utcoffset = None \<rparr>
               else Inl ValueError),
       getaddresses = (\<lambda>hs. Inr (map (\<lambda>h. ([], hval_text h)) hs)),
       html_feed = (\<lambda>h. Inr h),
       bytes_decode = (\<lambda>b. b),
       header_str = (\<lambda>b. b) \<rparr>"

text \<open>A plain message from \<open>Alice@Example.com\<close> with a date and a recipient.\<close>

definition hello_msg :: msg where
  "hello_msg =
     Msg [(''From'', Str ''Alice@Example.com''), (''To'', Str ''bob@kindredpm.ai''),
          (''Subject'', Str ''Hello''),
          (''Date'', Str ''Thu, 02 Oct 2025 10:00:00 +0000'')]
         ''text/plain'' (Inl AttributeError) (Inr (Some ''Hello'')) False []"


text \<open>The message of the specification's example for the subject keywords.\<close>

definition maintenance_msg :: msg where
  "maintenance_msg =
     Msg [(''From'', Str ''tenant@example.com''),
          (''Subject'', Str ''Maintenance request WO_ID 123'')]
         ''text/plain'' (Inl AttributeError) (Inr (Some ''The sink leaks.'')) False []"

text \<open>A message without a \<open>From\<close> header.\<close>

definition no_from_msg :: msg where
  "no_from_msg =
     Msg [(''Subject'', Str ''Hello'')]
         ''text/plain'' (Inl AttributeError) (Inr (Some ''Hello'')) False []"


text \<open>
  A message from Alice with a Gmail label that ends in an accented letter, written
  in the archive as the two bytes C3 A9 of UTF-8, so that \<open>get_all\<close> returns a \<open>Header\<close>
  for it; and the same message without its \<open>From\<close> header.
\<close>

definition cafe_label :: hval where
  "cafe_label = Header (''Caf'' @ [CHR 0xC3, CHR 0xA9])"

definition labelled_msg :: msg where
  "labelled_msg =
     Msg [(''From'', Str ''Alice@Example.com''), (''Subject'', Str ''Hello''),
          (''X-Gmail-Labels'', cafe_label)]
         ''text/plain'' (Inl AttributeError) (Inr (Some ''Hello'')) False []"

definition no_from_labelled_msg :: msg where
  "no_from_labelled_msg =
     Msg [(''Subject'', Str ''Hello''), (''X-Gmail-Labels'', cafe_label)]
         ''text/plain'' (Inl AttributeError) (Inr (Some ''Hello'')) False []"

text \<open>A multipart message whose \<open>text/html\<close> part has no \<open>get_content\<close> and no
  payload to decode.\<close>

definition html_without_payload :: msg where
  "html_without_payload =
     Msg [(''Content-Type'', Str ''multipart/alternative'')] ''multipart/alternative''
         (Inl AttributeError) (Inr None) True
         [Msg [(''Content-Type'', Str ''text/plain'')] ''text/plain''
              (Inl AttributeError) (Inr (Some ''Hello'')) False [],
          Msg [(''Content-Type'', Str ''text/html'')] ''text/html''
              (Inl AttributeError) (Inr None) False []]"







text \<open>Rows for the reduction: two from \<open>x.com\<close>, one from \<open>y.org\<close>, one without a
  domain.\<close>

definition mk_row :: "string \<Rightarrow> string \<Rightarrow> string \<Rightarrow> row" where
  "mk_row e d t =
     \<lparr> r_email = e, r_subject = Str [], r_date = t, r_full_email_chain = [],
       r_from_name = [], r_sender_domain = d, r_to = [], r_cc = [] \<rparr>"

definition row_x_old :: row where
  "row_x_old = mk_row ''a@x.com'' ''x.com'' ''2025-10-01T09:00:00+00:00''"

definition row_x_new :: row where
  "row_x_new = mk_row ''b@x.com'' ''x.com'' ''2025-10-02T10:00:00+00:00''"

definition row_y :: row where
  "row_y = mk_row ''c@y.org'' ''y.org'' ''2025-09-30T08:00:00+00:00''"

definition row_nodomain :: row where
  "row_nodomain = mk_row [] [] ''2025-10-03T00:00:00+00:00''"

definition example_rows :: "row list" where
  "example_rows = [row_x_old, row_y, row_nodomain, row_x_new]"

section \<open>Strings: facts\<close>

lemma lower_char_idem: "lower_char (lower_char c) = lower_char c"
proof -
  define n where "n = (of_char c :: nat)"
  have lt: "n < 256" by (simp add: n_def)
  show ?thesis
  proof (cases "(65 \<le> n \<and> n \<le> 90) \<or> (192 \<le> n \<and> n \<le> 222 \<and> n \<noteq> 215)")
    case True
    then have l: "lower_char c = char_of (n + 32)"
      by (simp add: lower_char_def n_def [symmetric])
    from True have "(of_char (char_of (n + 32) :: char) :: nat) = n + 32"
      by auto
    with True show ?thesis
      unfolding l by (auto simp add: lower_char_def Let_def)
  next
    case False
    then have "lower_char c = c"
      unfolding lower_char_def Let_def n_def [symmetric] by (simp only: if_False)
    then show ?thesis by simp
  qed
qed

lemma lower_idem: "lower (lower s) = lower s"
  by (simp add: lower_def lower_char_idem)

lemma contains_sublist: "contains s sub \<longleftrightarrow> sublist sub s"
  by (induction s) (auto simp: sublist_Cons_right)

lemma contains_char: "contains s [c] \<longleftrightarrow> c \<in> set s"
  by (induction s) auto

lemma after_first_dropWhile: "after_first c s = tl (dropWhile (\<lambda>x. x \<noteq> c) s)"
  by (induction s) auto

section \<open>Conversation reduction: facts\<close>

text \<open>The loop without its accumulator: what it appends to the rows kept so far.\<close>

lemma latest_loop_acc: "latest_loop xs acc seen = acc @ latest_loop xs [] seen"
proof (induction xs arbitrary: acc seen)
  case Nil show ?case by simp
next
  case (Cons x xs)
  show ?case
    using Cons.IH [of "acc @ [x]" "insert (r_sender_domain x) seen"]
          Cons.IH [of "[x]" "insert (r_sender_domain x) seen"]
          Cons.IH [of acc seen]
    by (simp add: Let_def)
qed

lemma latest_loop_Cons:
  "latest_loop (x # xs) [] seen =
     (if r_sender_domain x \<noteq> [] \<and> r_sender_domain x \<notin> seen
      then x # latest_loop xs [] (insert (r_sender_domain x) seen)
      else latest_loop xs [] seen)"
  using latest_loop_acc [of xs "[x]" "insert (r_sender_domain x) seen"]
  by (simp add: Let_def)

lemma latest_loop_subset: "set (latest_loop xs [] seen) \<subseteq> set xs"
  by (induction xs arbitrary: seen) (auto simp: latest_loop_Cons simp del: latest_loop.simps(2))

lemma latest_loop_fresh:
  "r \<in> set (latest_loop xs [] seen) \<Longrightarrow> r_sender_domain r \<noteq> [] \<and> r_sender_domain r \<notin> seen"
  by (induction xs arbitrary: seen) (auto simp: latest_loop_Cons simp del: latest_loop.simps(2) split: if_splits)

lemma latest_loop_distinct: "distinct (map r_sender_domain (latest_loop xs [] seen))"
  by (induction xs arbitrary: seen) (auto simp: latest_loop_Cons simp del: latest_loop.simps(2) dest: latest_loop_fresh)

lemma latest_loop_domains:
  "r_sender_domain ` set (latest_loop xs [] seen) = r_sender_domain ` set xs - insert [] seen"
  by (induction xs arbitrary: seen) (auto simp: latest_loop_Cons simp del: latest_loop.simps(2))

lemma latest_loop_sorted:
  "sorted_wrt (\<lambda>a b. r_date b \<le> r_date a) xs \<Longrightarrow>
   sorted_wrt (\<lambda>a b. r_date b \<le> r_date a) (latest_loop xs [] seen)"
proof (induction xs arbitrary: seen)
  case Nil show ?case by simp
next
  case (Cons x xs)
  then show ?case
    using latest_loop_subset [of xs "insert (r_sender_domain x) seen"]
    by (auto simp: latest_loop_Cons simp del: latest_loop.simps(2))
qed

lemma latest_loop_max:
  "sorted_wrt (\<lambda>a b. r_date b \<le> r_date a) xs \<Longrightarrow> r \<in> set (latest_loop xs [] seen) \<Longrightarrow>
   r' \<in> set xs \<Longrightarrow> r_sender_domain r' = r_sender_domain r \<Longrightarrow> r_date r' \<le> r_date r"
proof (induction xs arbitrary: seen)
  case Nil then show ?case by simp
next
  case (Cons x xs)
  show ?case
  proof (cases "r_sender_domain x \<noteq> [] \<and> r_sender_domain x \<notin> seen")
    case True
    then have eq: "latest_loop (x # xs) [] seen = x # latest_loop xs [] (insert (r_sender_domain x) seen)"
      by (simp add: latest_loop_Cons del: latest_loop.simps(2))
    show ?thesis
    proof (cases "r = x")
      case True
      with Cons.prems show ?thesis by auto
    next
      case False
      with Cons.prems eq have rin: "r \<in> set (latest_loop xs [] (insert (r_sender_domain x) seen))" by simp
      then have "r_sender_domain r \<noteq> r_sender_domain x" using latest_loop_fresh by blast
      with Cons.prems have "r' \<in> set xs" by auto
      with Cons.IH [OF _ rin] Cons.prems show ?thesis by simp
    qed
  next
    case False
    then have eq: "latest_loop (x # xs) [] seen = latest_loop xs [] seen"
      by (auto simp add: latest_loop_Cons simp del: latest_loop.simps(2))
    with Cons.prems have rin: "r \<in> set (latest_loop xs [] seen)" by simp
    then have "r_sender_domain r \<noteq> [] \<and> r_sender_domain r \<notin> seen" by (rule latest_loop_fresh)
    with False Cons.prems have "r' \<in> set xs" by auto
    with Cons.IH [OF _ rin] Cons.prems show ?thesis by simp
  qed
qed

lemma latest_loop_id:
  "distinct (map r_sender_domain xs) \<Longrightarrow>
   \<forall>r \<in> set xs. r_sender_domain r \<noteq> [] \<and> r_sender_domain r \<notin> seen \<Longrightarrow>
   latest_loop xs [] seen = xs"
proof (induction xs arbitrary: seen)
  case Nil
  show ?case by simp
next
  case (Cons x xs)
  from Cons.prems have fresh: "r_sender_domain x \<noteq> [] \<and> r_sender_domain x \<notin> seen"
    by simp
  from Cons.prems have d: "distinct (map r_sender_domain xs)"
    by simp
  from Cons.prems
  have "\<forall>r \<in> set xs. r_sender_domain r \<noteq> [] \<and>
          r_sender_domain r \<notin> insert (r_sender_domain x) seen"
    by (auto simp: image_iff)
  from Cons.IH [OF d this] fresh show ?case
    by (simp add: latest_loop_Cons del: latest_loop.simps(2))
qed

lemma sort_by_date_sorted: "sorted_wrt (\<lambda>a b. r_date b \<le> r_date a) (sort_by_date xs)"
proof -
  have "sorted (map r_date (sort_key r_date (rev xs)))" by simp
  then have "sorted_wrt (\<lambda>a b. r_date a \<le> r_date b) (sort_key r_date (rev xs))"
    by (simp add: sorted_map)
  then show ?thesis
    by (simp add: sort_by_date_def sorted_wrt_rev)
qed

lemma sort_by_date_set: "set (sort_by_date xs) = set xs"
  by (simp add: sort_by_date_def)

lemma sort_by_date_id:
  assumes "sorted_wrt (\<lambda>a b. r_date b \<le> r_date a) xs"
  shows "sort_by_date xs = xs"
proof -
  from assms have "sorted_wrt (\<lambda>a b. r_date a \<le> r_date b) (rev xs)"
    by (simp add: sorted_wrt_rev)
  then have "sorted (map r_date (rev xs))" by (simp add: sorted_map)
  then have "sort_key r_date (rev xs) = rev xs" by (rule sort_key_id_if_sorted)
  then show ?thesis by (simp add: sort_by_date_def)
qed

lemma sort_by_date_stable:
  "filter (\<lambda>r. r_date r = k) (sort_by_date xs) = filter (\<lambda>r. r_date r = k) xs"
  by (simp add: sort_by_date_def rev_filter [symmetric] sort_key_stable)

text \<open>
  C1. For every list of rows, the reduction (sort by timestamp, newest first, then
  keep the first row of each domain) returns at most one row for each sender
  domain, exactly the non-empty domains of the input are represented, every kept
  row is a row of the input with a non-empty domain, so every row with an empty
  domain is dropped, and its timestamp is the greatest, in the lexicographic order
  of strings, among all input rows of the same domain.
\<close>

theorem reduction_latest_per_domain:
  "distinct (map r_sender_domain (latest_emails_from_conversations rows)) \<and>
   r_sender_domain ` set (latest_emails_from_conversations rows) =
     r_sender_domain ` set rows - {[]} \<and>
   (\<forall>r \<in> set (latest_emails_from_conversations rows).
      r \<in> set rows \<and> r_sender_domain r \<noteq> [] \<and>
      (\<forall>r' \<in> set rows.
         r_sender_domain r' = r_sender_domain r \<longrightarrow> r_date r' \<le> r_date r))"
proof -
  let ?s = "sort_by_date rows"
  let ?out = "latest_emails_from_conversations rows"
  have out: "?out = latest_loop ?s [] {}"
    by (simp add: latest_emails_from_conversations_def)
  have d: "distinct (map r_sender_domain ?out)"
    unfolding out by (rule latest_loop_distinct)
  have c: "r_sender_domain ` set ?out = r_sender_domain ` set rows - {[]}"
    unfolding out by (simp add: latest_loop_domains sort_by_date_set)
  have m: "r \<in> set rows \<and> r_sender_domain r \<noteq> [] \<and>
      (\<forall>r' \<in> set rows. r_sender_domain r' = r_sender_domain r \<longrightarrow> r_date r' \<le> r_date r)"
    if r: "r \<in> set ?out" for r
  proof -
    from r have rin: "r \<in> set (latest_loop ?s [] {})" by (simp add: out)
    have "r \<in> set rows"
      using rin latest_loop_subset [of ?s "{}"] by (auto simp: sort_by_date_set)
    moreover have "r_sender_domain r \<noteq> []"
      using latest_loop_fresh [OF rin] by simp
    moreover have "r_date r' \<le> r_date r"
      if "r' \<in> set rows" "r_sender_domain r' = r_sender_domain r" for r'
      using latest_loop_max [OF sort_by_date_sorted rin, of r'] that
      by (simp add: sort_by_date_set)
    ultimately show ?thesis by blast
  qed
  from d c m show ?thesis by blast
qed

text \<open>On the example rows: the newer row of \<open>x.com\<close> is kept, the older one is an
  input row of the same domain and is not newer, and the row without a domain is
  dropped.\<close>

theorem reduction_latest_per_domain_witness:
  "row_x_new \<in> set (latest_emails_from_conversations example_rows) \<and>
   row_x_old \<in> set example_rows \<and>
   r_sender_domain row_x_old = r_sender_domain row_x_new \<and>
   r_date row_x_old \<le> r_date row_x_new \<and>
   row_nodomain \<notin> set (latest_emails_from_conversations example_rows)"
proof -
  have a: "row_x_new \<in> set (latest_emails_from_conversations example_rows)"
    by code_simp
  have b: "row_x_old \<in> set example_rows"
    by code_simp
  have c: "r_sender_domain row_x_old = r_sender_domain row_x_new"
    by code_simp
  have e: "r_sender_domain row_nodomain = []"
    by code_simp
  from reduction_latest_per_domain [of example_rows] a b c e show ?thesis
    by blast
qed

text \<open>
  C7. The reduction is idempotent: applied to its own output it returns that
  output, the same rows in the same order. The output is already sorted newest
  first, so the stable sort leaves it as it is, and its domains are distinct and
  non-empty, so the loop keeps every row.
\<close>

theorem reduction_idempotent:
  "latest_emails_from_conversations (latest_emails_from_conversations rows) =
     latest_emails_from_conversations rows"
proof -
  let ?out = "latest_emails_from_conversations rows"
  have s: "sorted_wrt (\<lambda>a b. r_date b \<le> r_date a) ?out"
    unfolding latest_emails_from_conversations_def
    by (rule latest_loop_sorted [OF sort_by_date_sorted])
  have d: "distinct (map r_sender_domain ?out)"
    unfolding latest_emails_from_conversations_def by (rule latest_loop_distinct)
  have f: "\<forall>r \<in> set ?out. r_sender_domain r \<noteq> [] \<and> r_sender_domain r \<notin> {}"
    unfolding latest_emails_from_conversations_def using latest_loop_fresh by blast
  have "latest_emails_from_conversations ?out = latest_loop ?out [] {}"
    by (simp add: latest_emails_from_conversations_def [of ?out] sort_by_date_id [OF s])
  also have "\<dots> = ?out" by (rule latest_loop_id [OF d f])
  finally show ?thesis .
qed

section \<open>Ingestion: facts\<close>

text \<open>The loops of the two predicates return, when they return, what the
  existential quantifiers of the specification's rules say.\<close>

lemma keyword_loop_iff: "keyword_loop ws s \<longleftrightarrow> (\<exists>w \<in> set ws. sublist w s)"
  by (induction ws) (auto simp: contains_sublist)

lemma subject_matches_ignores_Inr:
  "subject_matches_ignores cfg subj = Inr b \<longleftrightarrow>
     (\<exists>t. subj = Str t \<and> b = rule_subject cfg t)"
  by (cases subj)
     (auto simp: subject_matches_ignores_def rule_subject_def Let_def keyword_loop_iff
        contains_sublist)

lemma vals_loop_Inr:
  "vals_loop vs = Inr b \<Longrightarrow>
   b = (\<exists>v \<in> set vs. sublist ''spam'' (lower (hval_text v)) \<or>
                     sublist ''trash'' (lower (hval_text v)))"
proof (induction vs)
  case Nil
  then show ?case by simp
next
  case (Cons v vs)
  show ?case
  proof (cases v)
    case (Header bs)
    with Cons.prems show ?thesis by simp
  next
    case (Str t)
    show ?thesis
    proof (cases "contains (lower t) ''spam'' \<or> contains (lower t) ''trash''")
      case True
      with Str Cons.prems show ?thesis
        by (auto simp: contains_sublist hval_text_def)
    next
      case False
      with Str Cons.prems have "vals_loop vs = Inr b" by simp
      from Cons.IH [OF this] False Str show ?thesis
        by (auto simp: contains_sublist hval_text_def)
    qed
  qed
qed

lemma headers_loop_Inr:
  "headers_loop m hs = Inr b \<Longrightarrow>
   b = (\<exists>h \<in> set hs. \<exists>v \<in> set (msg_get_all m h).
          sublist ''spam'' (lower (hval_text v)) \<or> sublist ''trash'' (lower (hval_text v)))"
proof (induction hs)
  case Nil
  then show ?case by simp
next
  case (Cons h hs)
  show ?case
  proof (cases "vals_loop (msg_get_all m h)")
    case (Inl e)
    with Cons.prems show ?thesis by simp
  next
    case (Inr found)
    note v = vals_loop_Inr [OF Inr]
    show ?thesis
    proof (cases found)
      case True
      with Inr Cons.prems have "b" by simp
      with True v show ?thesis by auto
    next
      case False
      with Inr Cons.prems have "headers_loop m hs = Inr b" by simp
      from Cons.IH [OF this] False v show ?thesis by auto
    qed
  qed
qed

lemma is_in_spam_or_trash_Inr: "is_in_spam_or_trash m = Inr b \<Longrightarrow> b = rule_label m"
  unfolding is_in_spam_or_trash_def rule_label_def by (rule headers_loop_Inr)

text \<open>When the ignore rules return, they return the verdict of the specification's
  predicate.\<close>

lemma ignore_rules_decision:
  assumes "ignore_rules cfg m from_email subj = Inr b"
  shows "b = should_exclude cfg m from_email (hval_text subj)"
proof (cases "is_in_spam_or_trash m")
  case (Inl e)
  with assms show ?thesis by (simp add: ignore_rules_def)
next
  case (Inr spam)
  note l = is_in_spam_or_trash_Inr [OF Inr]
  show ?thesis
  proof (cases "spam \<or> rule_domain cfg from_email \<or> rule_sender cfg from_email")
    case True
    with assms Inr have "b"
      by (auto simp: ignore_rules_def Let_def rule_domain_def rule_sender_def
            split: if_splits)
    with True l show ?thesis by (auto simp: should_exclude_def)
  next
    case False
    with assms Inr have "subject_matches_ignores cfg subj = Inr b"
      by (simp add: ignore_rules_def Let_def rule_domain_def rule_sender_def)
    then obtain t where "subj = Str t" "b = rule_subject cfg t"
      by (auto simp: subject_matches_ignores_Inr)
    with False l show ?thesis by (simp add: should_exclude_def hval_text_def)
  qed
qed

lemma ignore_rules_mono:
  assumes "ignore_rules cfg m from_email subj = Inr True"
    and d: "ignore_domains cfg \<subseteq> ignore_domains cfg'"
    and s: "ignore_senders cfg \<subseteq> ignore_senders cfg'"
    and k: "set (subject_keywords_ignore cfg) \<subseteq> set (subject_keywords_ignore cfg')"
    and p: "subject_phrase_ignore cfg' = subject_phrase_ignore cfg"
  shows "ignore_rules cfg' m from_email subj = Inr True"
proof (cases "is_in_spam_or_trash m")
  case (Inl e)
  with assms(1) show ?thesis by (simp add: ignore_rules_def)
next
  case (Inr spam)
  show ?thesis
  proof (cases "spam \<or> rule_domain cfg' from_email \<or> rule_sender cfg' from_email")
    case True
    with Inr show ?thesis
      by (auto simp: ignore_rules_def Let_def rule_domain_def rule_sender_def)
  next
    case False
    with d s have "\<not> (spam \<or> rule_domain cfg from_email \<or> rule_sender cfg from_email)"
      by (auto simp: rule_domain_def rule_sender_def)
    with assms(1) Inr have "subject_matches_ignores cfg subj = Inr True"
      by (simp add: ignore_rules_def Let_def rule_domain_def rule_sender_def)
    then obtain t where t: "subj = Str t" "rule_subject cfg t"
      by (auto simp: subject_matches_ignores_Inr)
    from t(2) k p have "rule_subject cfg' t"
      by (auto simp: rule_subject_def)
    with t(1) have "subject_matches_ignores cfg' subj = Inr True"
      by (simp add: subject_matches_ignores_Inr)
    with False Inr show ?thesis
      by (simp add: ignore_rules_def Let_def rule_domain_def rule_sender_def)
  qed
qed

lemma message_datetime_returns: "\<exists>s. message_datetime lib m = Inr s"
  by (simp add: message_datetime_def split: option.splits sum.splits)

lemma parse_step_None_iff:
  "parse_step cfg lib m = Inr None \<longleftrightarrow>
     (\<exists>from_name from_email.
        extract_name_and_email lib (msg_get_default m ''From'' (Str [])) =
          Inr (from_name, from_email) \<and>
        ignore_rules cfg m from_email
          (decode_header lib (msg_get_default m ''Subject'' (Str []))) = Inr True)"
  using message_datetime_returns [of lib m]
  by (auto simp: parse_step_def Let_def split: sum.splits prod.splits if_splits)

lemma parse_step_Some:
  assumes "parse_step cfg lib m = Inr (Some row)"
  shows "\<exists>from_name from_email date_iso.
           extract_name_and_email lib (msg_get_default m ''From'' (Str [])) =
             Inr (from_name, from_email) \<and>
           ignore_rules cfg m from_email
             (decode_header lib (msg_get_default m ''Subject'' (Str []))) = Inr False \<and>
           message_datetime lib m = Inr date_iso \<and>
           build_row lib m from_name from_email
             (decode_header lib (msg_get_default m ''Subject'' (Str []))) date_iso
             (sender_domain from_email) = Inr row"
  using assms
  by (auto simp: parse_step_def Let_def split: sum.splits prod.splits if_splits)

lemma build_row_fields:
  "build_row lib m from_name from_email subj date_iso d = Inr row \<Longrightarrow>
   r_email row = from_email \<and> r_sender_domain row = d \<and> r_subject row = subj \<and>
   r_date row = date_iso \<and> get_body_text lib m = Inr (r_full_email_chain row)"
  by (auto simp: build_row_def split: sum.splits)

lemma extract_name_and_email_lower:
  "extract_name_and_email lib h = Inr (name, email) \<Longrightarrow> lower email = email"
  by (auto simp: extract_name_and_email_def lower_idem split: sum.splits prod.splits)

lemma sender_domain_after_first:
  "sender_domain email =
     (if CHR ''@'' \<in> set email then lower (after_first (CHR ''@'') email) else [])"
  by (simp add: sender_domain_def contains_char split1_def after_first_dropWhile)

lemma parse_step_row:
  assumes "parse_step cfg lib m = Inr (Some row)"
  shows "r_sender_domain row = sender_domain (r_email row) \<and> lower (r_email row) = r_email row"
proof -
  from parse_step_Some [OF assms] obtain from_name from_email subj date_iso where
    e: "extract_name_and_email lib (msg_get_default m ''From'' (Str [])) =
          Inr (from_name, from_email)"
    and b: "build_row lib m from_name from_email subj date_iso (sender_domain from_email) =
          Inr row"
    by blast
  from build_row_fields [OF b] extract_name_and_email_lower [OF e] show ?thesis
    by simp
qed

lemma parse_loop_rows:
  "parse_loop cfg lib mbox acc = Inr rows \<Longrightarrow> row \<in> set rows \<Longrightarrow>
   row \<in> set acc \<or> (\<exists>m \<in> set mbox. parse_step cfg lib m = Inr (Some row))"
proof (induction mbox arbitrary: acc)
  case Nil
  then show ?case by simp
next
  case (Cons m mbox)
  show ?case
  proof (cases "parse_step cfg lib m")
    case (Inl e)
    with Cons.prems show ?thesis by simp
  next
    case (Inr res)
    show ?thesis
    proof (cases res)
      case None
      with Inr Cons.prems have "parse_loop cfg lib mbox acc = Inr rows" by simp
      from Cons.IH [OF this Cons.prems(2)] show ?thesis by auto
    next
      case (Some r)
      with Inr Cons.prems have "parse_loop cfg lib mbox (acc @ [r]) = Inr rows" by simp
      from Cons.IH [OF this Cons.prems(2)] Inr Some show ?thesis by auto
    qed
  qed
qed

lemma parse_mbox_file_rows:
  "parse_mbox_file cfg lib mbox = Inr rows \<Longrightarrow> row \<in> set rows \<Longrightarrow>
   \<exists>m \<in> set mbox. parse_step cfg lib m = Inr (Some row)"
  using parse_loop_rows [of cfg lib mbox "[]" rows row]
  by (simp add: parse_mbox_file_def)

lemma parse_loop_returns:
  "parse_loop cfg lib mbox acc = Inr rows \<Longrightarrow>
   set acc \<subseteq> set rows \<and>
   (\<forall>m \<in> set mbox. parse_step cfg lib m = Inr None \<or>
        (\<exists>row \<in> set rows. parse_step cfg lib m = Inr (Some row)))"
proof (induction mbox arbitrary: acc)
  case Nil
  then show ?case by simp
next
  case (Cons m mbox)
  show ?case
  proof (cases "parse_step cfg lib m")
    case (Inl e)
    with Cons.prems show ?thesis by simp
  next
    case (Inr res)
    show ?thesis
    proof (cases res)
      case None
      with Inr Cons.prems have "parse_loop cfg lib mbox acc = Inr rows" by simp
      from Cons.IH [OF this] Inr None show ?thesis by simp
    next
      case (Some r)
      with Inr Cons.prems have "parse_loop cfg lib mbox (acc @ [r]) = Inr rows" by simp
      from Cons.IH [OF this] Inr Some show ?thesis by auto
    qed
  qed
qed

text \<open>Whenever ingestion returns, every message of the archive was excluded or
  included as the specification's predicate says.\<close>

lemma parse_mbox_file_decision:
  assumes "parse_mbox_file cfg lib mbox = Inr rows" and "m \<in> set mbox"
  shows "\<exists>from_name from_email.
           extract_name_and_email lib (msg_get_default m ''From'' (Str [])) =
             Inr (from_name, from_email) \<and>
           (if should_exclude cfg m from_email
                 (hval_text (decode_header lib (msg_get_default m ''Subject'' (Str []))))
            then parse_step cfg lib m = Inr None
            else \<exists>row \<in> set rows. parse_step cfg lib m = Inr (Some row) \<and>
                   r_email row = from_email)"
proof -
  let ?subj = "decode_header lib (msg_get_default m ''Subject'' (Str []))"
  from parse_loop_returns [of cfg lib mbox "[]" rows] assms
  consider "parse_step cfg lib m = Inr None"
    | row where "row \<in> set rows" "parse_step cfg lib m = Inr (Some row)"
    by (auto simp: parse_mbox_file_def)
  then show ?thesis
  proof cases
    case 1
    then obtain from_name from_email where
      e: "extract_name_and_email lib (msg_get_default m ''From'' (Str [])) =
            Inr (from_name, from_email)"
      and i: "ignore_rules cfg m from_email ?subj = Inr True"
      by (auto simp: parse_step_None_iff)
    from ignore_rules_decision [OF i] e 1 show ?thesis by simp
  next
    case 2
    from parse_step_Some [OF 2(2)] obtain from_name from_email date_iso where
      e: "extract_name_and_email lib (msg_get_default m ''From'' (Str [])) =
            Inr (from_name, from_email)"
      and i: "ignore_rules cfg m from_email ?subj = Inr False"
      and b: "build_row lib m from_name from_email ?subj date_iso
                (sender_domain from_email) = Inr row"
      by blast
    from ignore_rules_decision [OF i] e 2 build_row_fields [OF b] show ?thesis by auto
  qed
qed

text \<open>
  C2. A message is to be excluded exactly when one of the four rules holds, and to
  be included otherwise. \<open>is_in_spam_or_trash\<close> calls \<open>v.lower()\<close> on the label values as
  \<open>get_all\<close> returns them, where \<open>_get_body_text\<close> wraps such a value in \<open>str\<close> first.
  By \<open>parse_mbox_file_decision\<close> every message is excluded or included as the rules
  say whenever ingestion returns. For the message from Alice with the Gmail label
  \<open>cafe_label\<close>, a \<open>Header\<close> object, no rule holds, yet the message is not included:
  the \<open>AttributeError\<close> leaves \<open>is_in_spam_or_trash\<close> and \<open>parse_mbox_file\<close>, and the row
  of the message before it is lost too. The same happens, with no rule holding,
  when body extraction raises on the message of C3.
\<close>

theorem label_header_raises:
  "extract_name_and_email example_lib (msg_get_default labelled_msg ''From'' (Str [])) =
     Inr ([], ''alice@example.com'') \<and>
   decode_header example_lib (msg_get_default labelled_msg ''Subject'' (Str [])) =
     Str ''Hello'' \<and>
   \<not> should_exclude shipped labelled_msg ''alice@example.com'' ''Hello'' \<and>
   is_in_spam_or_trash labelled_msg = Inl AttributeError \<and>
   parse_mbox_file shipped example_lib [hello_msg, labelled_msg] = Inl AttributeError \<and>
   \<not> should_exclude shipped html_without_payload [] [] \<and>
   parse_mbox_file shipped example_lib [hello_msg, html_without_payload] =
     Inl AttributeError"
  by code_simp

text \<open>
  C4. The sender domain is the part of the sender address after its first \<open>@\<close>,
  lower-cased, and is empty when the address has no \<open>@\<close>; every row that
  \<open>parse_mbox_file\<close> returns carries the domain derived from its own address, and
  that address is lower-cased already.
\<close>

theorem sender_domain_consistent:
  "sender_domain email =
     (if CHR ''@'' \<in> set email then lower (after_first (CHR ''@'') email) else []) \<and>
   (parse_mbox_file cfg lib mbox = Inr rows \<longrightarrow>
      (\<forall>row \<in> set rows.
         r_sender_domain row = sender_domain (r_email row) \<and>
         lower (r_email row) = r_email row))"
proof -
  have "r_sender_domain row = sender_domain (r_email row) \<and> lower (r_email row) = r_email row"
    if "parse_mbox_file cfg lib mbox = Inr rows" "row \<in> set rows" for row
  proof -
    from parse_mbox_file_rows [OF that]
    obtain m where "parse_step cfg lib m = Inr (Some row)" by blast
    then show ?thesis by (rule parse_step_row)
  qed
  then show ?thesis
    using sender_domain_after_first [of email] by blast
qed

text \<open>An address with two \<open>@\<close>, one with none, and the row of an archive of two
  messages.\<close>

theorem sender_domain_consistent_witness:
  "sender_domain ''alice@x@example.com'' = ''x@example.com'' \<and>
   sender_domain ''alice'' = [] \<and>
   (\<exists>row. parse_mbox_file shipped example_lib [maintenance_msg, hello_msg] = Inr [row] \<and>
      r_email row = ''alice@example.com'' \<and> r_sender_domain row = sender_domain (r_email row))"
proof -
  let ?row = "\<lparr> r_email = ''alice@example.com'', r_subject = Str ''Hello'',
                 r_date = ''2025-10-02T10:00:00+00:00'', r_full_email_chain = ''Hello'',
                 r_from_name = [], r_sender_domain = ''example.com'',
                 r_to = ''bob@kindredpm.ai'', r_cc = [] \<rparr>"
  have a: "CHR ''@'' \<in> set ''alice@x@example.com''" by simp
  have b: "lower (after_first (CHR ''@'') ''alice@x@example.com'') = ''x@example.com''"
    by code_simp
  have c: "CHR ''@'' \<notin> set ''alice''" by simp
  have p: "parse_mbox_file shipped example_lib [maintenance_msg, hello_msg] = Inr [?row]"
    by code_simp
  have e: "r_email ?row = ''alice@example.com''" by simp
  from sender_domain_consistent [of "''alice@x@example.com''" shipped example_lib
         "[maintenance_msg, hello_msg]" "[?row]"] a b p
  have 1: "sender_domain ''alice@x@example.com'' = ''x@example.com''"
    and 2: "r_sender_domain ?row = sender_domain (r_email ?row)"
    by simp_all
  from sender_domain_consistent [of "''alice''" shipped example_lib "[]" "[]"] c
  have 3: "sender_domain ''alice'' = []" by simp
  from 1 2 3 p e show ?thesis by blast
qed









text \<open>
  C6. Exclusion is monotonic in the configuration: a message excluded under one
  configuration is excluded under every configuration whose domain blocklist,
  sender blocklist and subject keyword set contain those of the first (with the
  same ignore phrase).
\<close>

theorem exclusion_monotone:
  assumes "parse_step cfg lib m = Inr None"
    and "ignore_domains cfg \<subseteq> ignore_domains cfg'"
    and "ignore_senders cfg \<subseteq> ignore_senders cfg'"
    and "set (subject_keywords_ignore cfg) \<subseteq> set (subject_keywords_ignore cfg')"
    and "subject_phrase_ignore cfg' = subject_phrase_ignore cfg"
  shows "parse_step cfg' lib m = Inr None"
proof -
  from assms(1) obtain from_name from_email where
    e: "extract_name_and_email lib (msg_get_default m ''From'' (Str [])) =
          Inr (from_name, from_email)"
    and i: "ignore_rules cfg m from_email
          (decode_header lib (msg_get_default m ''Subject'' (Str []))) = Inr True"
    by (auto simp: parse_step_None_iff)
  from ignore_rules_mono [OF i assms(2-5)] e show ?thesis
    by (auto simp: parse_step_None_iff)
qed

text \<open>The maintenance request stays excluded when each of the three sets gets one
  more entry.\<close>

theorem exclusion_monotone_witness:
  "parse_step shipped example_lib maintenance_msg = Inr None \<and>
   parse_step (shipped \<lparr> ignore_domains := insert ''example.org'' (ignore_domains shipped),
                        ignore_senders := insert ''noreply@example.org'' (ignore_senders shipped),
                        subject_keywords_ignore := ''invoice'' # subject_keywords_ignore shipped \<rparr>)
     example_lib maintenance_msg = Inr None"
proof -
  let ?cfg = "shipped \<lparr> ignore_domains := insert ''example.org'' (ignore_domains shipped),
                        ignore_senders := insert ''noreply@example.org'' (ignore_senders shipped),
                        subject_keywords_ignore := ''invoice'' # subject_keywords_ignore shipped \<rparr>"
  have p: "parse_step shipped example_lib maintenance_msg = Inr None"
    by code_simp
  have d: "ignore_domains shipped \<subseteq> ignore_domains ?cfg" by auto
  have s: "ignore_senders shipped \<subseteq> ignore_senders ?cfg" by auto
  have k: "set (subject_keywords_ignore shipped) \<subseteq> set (subject_keywords_ignore ?cfg)"
    by auto
  have f: "subject_phrase_ignore ?cfg = subject_phrase_ignore shipped" by simp
  from exclusion_monotone [OF p d s k f] p show ?thesis by simp
qed

text \<open>The configuration's cutoff is read nowhere.\<close>

lemma ignore_rules_cutoff:
  "ignore_rules (cfg \<lparr> cutoff_utc := c \<rparr>) m e subj = ignore_rules cfg m e subj"
  by (simp add: ignore_rules_def subject_matches_ignores_def Let_def
        split: sum.splits hval.splits)

lemma parse_step_cutoff: "parse_step (cfg \<lparr> cutoff_utc := c \<rparr>) lib m = parse_step cfg lib m"
  by (simp add: parse_step_def ignore_rules_cutoff Let_def split: sum.splits prod.splits)

lemma parse_loop_cutoff:
  "parse_loop (cfg \<lparr> cutoff_utc := c \<rparr>) lib mbox acc = parse_loop cfg lib mbox acc"
  by (induction mbox arbitrary: acc)
     (simp_all add: parse_step_cutoff split: sum.splits option.splits)

text \<open>
  C9. The recency cutoff is never applied: for every archive, the rows that
  ingestion retains and the rows that the reduction selects are the same for any
  two values of the configured cutoff instant.
\<close>

theorem cutoff_not_applied:
  "parse_mbox_file (cfg \<lparr> cutoff_utc := c1 \<rparr>) lib mbox =
     parse_mbox_file (cfg \<lparr> cutoff_utc := c2 \<rparr>) lib mbox \<and>
   main_steps (cfg \<lparr> cutoff_utc := c1 \<rparr>) lib mbox =
     main_steps (cfg \<lparr> cutoff_utc := c2 \<rparr>) lib mbox"
  by (simp add: main_steps_def parse_mbox_file_def parse_loop_cutoff)

text \<open>
  C10. A message without a parseable sender gets the empty sender address and the
  empty domain, neither of which is in a shipped blocklist, and is to survive
  ingestion when no other rule matches; without a label header it does. With the
  Gmail label \<open>cafe_label\<close>, a \<open>Header\<close> object, no rule matches the message without
  \<open>From\<close>, yet it does not survive: \<open>v.lower()\<close> raises in \<open>is_in_spam_or_trash\<close>, as in
  C2, and \<open>parse_mbox_file\<close> returns no row at all. The message of C3 has no \<open>From\<close>
  header either and is lost to the exception of body extraction.
\<close>

theorem empty_sender_label_raises:
  "msg_get no_from_labelled_msg ''From'' = None \<and>
   extract_name_and_email example_lib (msg_get_default no_from_labelled_msg ''From'' (Str [])) =
     Inr ([], []) \<and>
   sender_domain [] = [] \<and>
   \<not> rule_domain shipped [] \<and> \<not> rule_sender shipped [] \<and>
   \<not> should_exclude shipped no_from_labelled_msg [] ''Hello'' \<and>
   parse_mbox_file shipped example_lib [no_from_labelled_msg] = Inl AttributeError \<and>
   parse_mbox_file shipped example_lib [no_from_msg] =
     Inr [\<lparr> r_email = [], r_subject = Str ''Hello'', r_date = [],
            r_full_email_chain = ''Hello'', r_from_name = [], r_sender_domain = [],
            r_to = [], r_cc = [] \<rparr>] \<and>
   msg_get html_without_payload ''From'' = None \<and>
   \<not> should_exclude shipped html_without_payload [] [] \<and>
   parse_mbox_file shipped example_lib [html_without_payload] = Inl AttributeError"
  by code_simp

section \<open>Body extraction: facts\<close>


lemma walk_multipart: "is_multipart p \<Longrightarrow> walk p = p # concat (map walk (subparts p))"
  by (cases p) simp







lemma body_loop_raises:
  "body_loop lib ps acc = Inl e \<Longrightarrow>
   \<exists>p \<in> set ps. \<not> is_attachment lib p \<and> lower (get_content_type p) = ''text/html'' \<and>
     (\<exists>e'. get_content p = Inl e') \<and> payload_text lib p = Inl e"
proof (induction ps arbitrary: acc)
  case Nil
  then show ?case by simp
next
  case (Cons p ps)
  then show ?case
    by (auto simp: Let_def split: if_splits sum.splits)
qed

text \<open>
  C3. Body extraction is to return for every message, a part that cannot be decoded
  adding nothing. The \<open>text/plain\<close> branch and the branch for a single part guard
  their fallback with a second \<open>try\<close>; the \<open>text/html\<close> branch does not, and by
  \<open>body_loop_raises\<close> this is the only place an exception can leave the function.
  On a multipart message whose \<open>text/html\<close> part has neither \<open>get_content\<close> nor a
  payload to decode, the \<open>AttributeError\<close> of the fallback leaves \<open>_get_body_text\<close>,
  and the text of the \<open>text/plain\<close> part before it is lost with it.
\<close>

theorem html_without_payload_raises:
  "get_body_text example_lib html_without_payload = Inl AttributeError"
  by code_simp




end
